theory Spec2Isabelle
  imports Complex_Main "HOL-Library.Word"
begin

section \<open>The sumo robot firmware: data model\<close>

text \<open>
  The development follows the newest variant of the sketch (the one with \<open>DashB\<close>, the
  \<open>SPIN_ACTIVE\<close> phase and the joint clamp in \<open>move\<close>), built with \<open>debug\<close> and \<open>motor\<close>
  both defined.

  \<^item> \<open>unsigned long\<close> is 32 bits wide on the ESP32, so \<open>millis()\<close>, \<open>lastActionStart\<close> and
    \<open>stickReconnectTimer\<close> are \<open>32 word\<close>: subtraction wraps and \<open><\<close> is unsigned.
  \<^item> Every call of \<open>millis()\<close> is a parameter of the function that makes it, so that two
    calls within one tick may return different values.
  \<^item> \<open>float\<close> is modelled by \<open>real\<close>: arithmetic is exact, rounding and the special values
    (NaN, infinities) of the hardware format are not modelled.
  \<^item> \<open>int\<close> is modelled by \<open>int\<close>. The only place where the width of the C type matters is
    \<open>abs(INT_MIN)\<close>; stick readings are 8-bit quantities, far away from it.
  \<^item> \<open>abs\<close> and \<open>max\<close> applied to \<open>float\<close> arguments are the absolute value and the maximum
    of reals.
  \<^item> Pin writes and calls into the gamepad library are recorded in an output trace, in the
    order in which the code makes them; \<open>removePairedDevices()\<close> is one event. The \<open>Serial\<close>
    diagnostics are not recorded, and \<open>delay\<close> only lets the clock advance, which the clock
    readings of the next iteration express.
\<close>

type_synonym millis = "32 word"

datatype Action = Neutral | DashF | DashB | SpinR | SpinL

text \<open>The struct \<open>Controller\<close>; the button \<open>x\<close> is called \<open>x_btn\<close> here.\<close>

record Controller =
  rx :: int
  ly :: int
  x_btn :: bool
  sq :: bool
  r1 :: bool
  l1 :: bool

datatype event =
    DigitalWrite int int
  | AnalogWrite int int
  | RemovePairedDevices
  | PS4_end
  | PS4_begin

text \<open>The global variables of the sketch, and the trace of what it has written so far.\<close>

record state =
  stick :: Controller
  currentAction :: Action
  nextAction :: Action
  lastActionStart :: millis
  stickReconnectTimer :: millis
  trace :: "event list"

subsection \<open>Constants\<close>

definition PIN_R_SPD :: int where "PIN_R_SPD = 25"
definition PIN_R_FWD :: int where "PIN_R_FWD = 32"
definition PIN_R_BWD :: int where "PIN_R_BWD = 33"
definition PIN_L_SPD :: int where "PIN_L_SPD = 18"
definition PIN_L_FWD :: int where "PIN_L_FWD = 19"
definition PIN_L_BWD :: int where "PIN_L_BWD = 21"

definition STICK_RECONNECT_DELAY :: millis where "STICK_RECONNECT_DELAY = 3000"

definition STICK_ZERO :: int where "STICK_ZERO = 10"
definition STICK_FINE :: int where "STICK_FINE = 100"
definition STICK_MAX :: int where "STICK_MAX = 128"
definition SPEED_MIN :: int where "SPEED_MIN = 20"
definition SPEED_MID :: int where "SPEED_MID = 70"
definition SPEED_MAX :: int where "SPEED_MAX = 100"
definition ROT_MIN :: int where "ROT_MIN = 20"
definition ROT_MID :: int where "ROT_MID = 60"
definition ROT_MAX :: int where "ROT_MAX = 80"
definition ROT_LEAD :: real where "ROT_LEAD = 1"
definition ROT_TRAIL :: real where "ROT_TRAIL = 1"

definition DASH_DURATION :: millis where "DASH_DURATION = 300"
definition SPIN_DURATION :: millis where "SPIN_DURATION = 300"
definition SPIN_ACTIVE :: millis where "SPIN_ACTIVE = 100"
definition DASH_SPEED :: real where "DASH_SPEED = 1"
definition SPIN_SPEED :: real where "SPIN_SPEED = 1"
definition ACTION_DEBOUNCE :: millis where "ACTION_DEBOUNCE = 200"

definition EPSILON :: real where "EPSILON = 1 / 1000"

lemmas stick_defs =
  STICK_ZERO_def STICK_FINE_def STICK_MAX_def SPEED_MIN_def SPEED_MID_def SPEED_MAX_def
  ROT_MIN_def ROT_MID_def ROT_MAX_def ROT_LEAD_def ROT_TRAIL_def EPSILON_def

lemmas action_defs =
  DASH_DURATION_def SPIN_DURATION_def SPIN_ACTIVE_def DASH_SPEED_def SPIN_SPEED_def
  ACTION_DEBOUNCE_def ROT_LEAD_def ROT_TRAIL_def

section \<open>Utility functions\<close>

text \<open>
  \<^verbatim>\<open>if (abs(in_max - in_min) < EPSILON) return in_max;\<close>
  \<^verbatim>\<open>return (x - in_min) * (out_max - out_min) / (in_max - in_min) + out_min;\<close>
\<close>

definition fmap :: "real \<Rightarrow> real \<Rightarrow> real \<Rightarrow> real \<Rightarrow> real \<Rightarrow> real" where
  "fmap x in_min in_max out_min out_max =
     (if \<bar>in_max - in_min\<bar> < EPSILON then in_max
      else (x - in_min) * (out_max - out_min) / (in_max - in_min) + out_min)"

text \<open>
  \<open>checkDebounce\<close>: \<^verbatim>\<open>return (millis() - lastActionStart > deb);\<close> The first argument is
  the value that \<open>millis()\<close> returns.
\<close>

definition checkDebounce :: "state \<Rightarrow> millis \<Rightarrow> millis \<Rightarrow> bool" where
  "checkDebounce s now deb = (now - lastActionStart s > deb)"

section \<open>Low-level control\<close>

text \<open>The conversion \<open>(int)\<close> of a \<open>float\<close>: truncation towards zero.\<close>

definition int_of_float :: "real \<Rightarrow> int" where
  "int_of_float v = (if v < 0 then - \<lfloor>- v\<rfloor> else \<lfloor>v\<rfloor>)"

text \<open>The line \<^verbatim>\<open>if (v < -1) v = -1; else if (v > 1) v = 1;\<close> of \<open>setSpeed\<close> (``verify speeds'').\<close>

definition verify :: "real \<Rightarrow> real" where
  "verify v = (if v < - 1 then - 1 else if v > 1 then 1 else v)"

text \<open>
  \<open>setSpeed\<close> as compiled with \<open>motor\<close> defined: the writes it makes, in order. The right
  wheel's direction pins come first, then the left wheel's, then the two duty cycles.
\<close>

definition setSpeed_writes :: "real \<Rightarrow> real \<Rightarrow> event list" where
  "setSpeed_writes l r =
     (let r = verify r;
          l = verify l;
          r_dir = (if r < 0 then [DigitalWrite PIN_R_BWD 1, DigitalWrite PIN_R_FWD 0]
                   else [DigitalWrite PIN_R_FWD 1, DigitalWrite PIN_R_BWD 0]);
          r = (if r < 0 then - r else r);
          l_dir = (if l < 0 then [DigitalWrite PIN_L_BWD 1, DigitalWrite PIN_L_FWD 0]
                   else [DigitalWrite PIN_L_FWD 1, DigitalWrite PIN_L_BWD 0]);
          l = (if l < 0 then - l else l)
      in r_dir @ l_dir @
         [AnalogWrite PIN_R_SPD (int_of_float (r * 255)),
          AnalogWrite PIN_L_SPD (int_of_float (l * 255))])"

definition emit :: "event list \<Rightarrow> state \<Rightarrow> state" where
  "emit evs s = s\<lparr>trace := trace s @ evs\<rparr>"

definition setSpeed :: "state \<Rightarrow> real \<Rightarrow> real \<Rightarrow> state" where
  "setSpeed s l r = emit (setSpeed_writes l r) s"

section \<open>Analog control\<close>

definition mapSpeedStick :: "int \<Rightarrow> real" where
  "mapSpeedStick val0 =
     (let sign = (if val0 < 0 then - 1 else 1 :: int);
          val = \<bar>val0\<bar>
      in if val \<le> STICK_ZERO then 0
         else if val \<le> STICK_FINE then
           of_int sign * fmap (of_int val) (of_int STICK_ZERO) (of_int STICK_FINE)
                              (of_int SPEED_MIN) (of_int SPEED_MID)
         else
           of_int sign * fmap (of_int val) (of_int STICK_FINE) (of_int STICK_MAX)
                              (of_int SPEED_MID) (of_int SPEED_MAX))"

definition mapRotStick :: "int \<Rightarrow> real" where
  "mapRotStick val0 =
     (let sign = (if val0 < 0 then - 1 else 1 :: int);
          val = \<bar>val0\<bar>
      in if val \<le> STICK_ZERO then 0
         else if val \<le> STICK_FINE then
           of_int sign * fmap (of_int val) (of_int STICK_ZERO) (of_int STICK_FINE)
                              (of_int ROT_MIN) (of_int ROT_MID)
         else
           of_int sign * fmap (of_int val) (of_int STICK_FINE) (of_int STICK_MAX)
                              (of_int ROT_MID) (of_int ROT_MAX))"

text \<open>
  \<open>move\<close>, in steps. \<open>move_split\<close> is the rotation split
  \<^verbatim>\<open>float rotR = -rot, rotL = rot;\<close>
  \<^verbatim>\<open>if (rotR > 0) { rotR *= ROT_LEAD; rotL *= ROT_TRAIL; }\<close>
  \<^verbatim>\<open>else { rotR *= ROT_TRAIL; rotL *= ROT_LEAD; }\<close>
  and returns \<open>(rotL, rotR)\<close>, left wheel first as in \<open>setSpeed\<close>. \<open>move_sums\<close> is the code up
  to \<^verbatim>\<open>float l = speed + rotL, r = speed + rotR;\<close> and returns \<open>(l, r)\<close>. \<open>move_rescale\<close> is
  the conditional
  \<^verbatim>\<open>if (max(abs(l), abs(r)) > 1) { float mx = max(abs(l), abs(r)); l /= mx; r /= mx; }\<close>
  and \<open>move\<close> hands the result to \<open>setSpeed\<close>.
\<close>

definition move_split :: "real \<Rightarrow> real \<times> real" where
  "move_split rot =
     (let rotR = - rot; rotL = rot
      in if rotR > 0 then (rotL * ROT_TRAIL, rotR * ROT_LEAD)
         else (rotL * ROT_LEAD, rotR * ROT_TRAIL))"

definition move_sums :: "int \<Rightarrow> int \<Rightarrow> real \<times> real" where
  "move_sums speedStick rotStick =
     (let speed = mapSpeedStick speedStick / of_int STICK_MAX;
          rot = mapRotStick rotStick / of_int STICK_MAX;
          rotL = fst (move_split rot);
          rotR = snd (move_split rot)
      in (speed + rotL, speed + rotR))"

definition move_rescale :: "real \<times> real \<Rightarrow> real \<times> real" where
  "move_rescale lr =
     (let l = fst lr; r = snd lr
      in if max \<bar>l\<bar> \<bar>r\<bar> > 1 then (let mx = max \<bar>l\<bar> \<bar>r\<bar> in (l / mx, r / mx))
         else (l, r))"

definition move :: "state \<Rightarrow> int \<Rightarrow> int \<Rightarrow> state" where
  "move s speedStick rotStick =
     (let lr = move_rescale (move_sums speedStick rotStick) in setSpeed s (fst lr) (snd lr))"

section \<open>Actions\<close>

definition dashF :: "state \<Rightarrow> state" where
  "dashF s = setSpeed s DASH_SPEED DASH_SPEED"

definition dashB :: "state \<Rightarrow> state" where
  "dashB s = setSpeed s (- DASH_SPEED) (- DASH_SPEED)"

text \<open>
  \<^verbatim>\<open>if (!checkDebounce(SPIN_ACTIVE)) setSpeed(SPIN_SPEED * ROT_LEAD, -SPIN_SPEED * ROT_TRAIL);\<close>
  \<^verbatim>\<open>else setSpeed(0, 0);\<close>
  \<open>spinR_cmd\<close> is the pair of arguments that \<open>spinR\<close> passes to \<open>setSpeed\<close> when \<open>millis()\<close>
  returns \<open>now\<close>; likewise for the left spin.
\<close>

definition spinR_cmd :: "state \<Rightarrow> millis \<Rightarrow> real \<times> real" where
  "spinR_cmd s now =
     (if \<not> checkDebounce s now SPIN_ACTIVE then (SPIN_SPEED * ROT_LEAD, - SPIN_SPEED * ROT_TRAIL)
      else (0, 0))"

definition spinR :: "state \<Rightarrow> millis \<Rightarrow> state" where
  "spinR s now = setSpeed s (fst (spinR_cmd s now)) (snd (spinR_cmd s now))"

definition spinL_cmd :: "state \<Rightarrow> millis \<Rightarrow> real \<times> real" where
  "spinL_cmd s now =
     (if \<not> checkDebounce s now SPIN_ACTIVE then (- SPIN_SPEED * ROT_TRAIL, SPIN_SPEED * ROT_LEAD)
      else (0, 0))"

definition spinL :: "state \<Rightarrow> millis \<Rightarrow> state" where
  "spinL s now = setSpeed s (fst (spinL_cmd s now)) (snd (spinL_cmd s now))"

definition reset :: "state \<Rightarrow> state" where
  "reset s = setSpeed s 0 0"

section \<open>The action queue\<close>

definition getCooldown :: "Action \<Rightarrow> millis" where
  "getCooldown act =
     (if act = DashF \<or> act = DashB then DASH_DURATION
      else if act \<noteq> Neutral then SPIN_DURATION
      else 0)"

definition checkCooldown :: "state \<Rightarrow> millis \<Rightarrow> Action \<Rightarrow> bool" where
  "checkCooldown s now act = checkDebounce s now (getCooldown act)"

text \<open>\<open>!!a\<close> for an action \<open>a\<close>: 1 unless \<open>a\<close> is \<open>Neutral\<close>, the enumerator with value 0.\<close>

definition notnot :: "Action \<Rightarrow> int" where
  "notnot a = (if a = Neutral then 0 else 1)"

text \<open>
  \<open>processActionQueue\<close> reads the clock in \<open>checkCooldown\<close> (\<open>t_chk\<close>) and again when it
  stamps \<open>lastActionStart\<close> (\<open>t_set\<close>). It returns the status and the new state.
\<close>

definition processActionQueue :: "state \<Rightarrow> millis \<Rightarrow> millis \<Rightarrow> int \<times> state" where
  "processActionQueue s t_chk t_set =
     (let s' =
        (if currentAction s \<noteq> Neutral then
           (if checkCooldown s t_chk (currentAction s) then
              (let s1 = (if currentAction s = SpinR \<or> currentAction s = SpinL then reset s else s);
                   s2 = s1\<lparr>currentAction := nextAction s1\<rparr>;
                   s3 = s2\<lparr>nextAction := Neutral\<rparr>
               in if currentAction s3 \<noteq> Neutral then s3\<lparr>lastActionStart := t_set\<rparr> else s3)
            else s)
         else if nextAction s \<noteq> Neutral then
           (let s1 = s\<lparr>currentAction := nextAction s\<rparr>;
                s2 = s1\<lparr>nextAction := Neutral\<rparr>
            in s2\<lparr>lastActionStart := t_set\<rparr>)
         else s)
      in (notnot (currentAction s') + notnot (nextAction s'), s'))"

definition executeAction :: "state \<Rightarrow> millis \<Rightarrow> state" where
  "executeAction s now =
     (if currentAction s = DashF then dashF s
      else if currentAction s = DashB then dashB s
      else if currentAction s = SpinR then spinR s now
      else if currentAction s = SpinL then spinL s now
      else s)"

text \<open>
  \<open>processController\<close>: \<open>inp\<close> is what the gamepad library returns for the six readings,
  \<open>now\<close> what \<open>millis()\<close> returns inside \<open>checkDebounce()\<close>, whose argument defaults to
  \<open>ACTION_DEBOUNCE\<close>.
\<close>

definition processController :: "state \<Rightarrow> int \<Rightarrow> Controller \<Rightarrow> millis \<Rightarrow> state" where
  "processController s actionQueueStatus inp now =
     (let s1 = s\<lparr>stick := inp\<rparr>;
          s2 =
            (if actionQueueStatus \<noteq> 2 then
               (if x_btn (stick s1) then
                  (if currentAction s1 \<noteq> DashF \<or> checkDebounce s1 now ACTION_DEBOUNCE
                   then s1\<lparr>nextAction := DashF\<rparr> else s1)
                else if sq (stick s1) then
                  (if currentAction s1 \<noteq> DashB \<or> checkDebounce s1 now ACTION_DEBOUNCE
                   then s1\<lparr>nextAction := DashB\<rparr> else s1)
                else if r1 (stick s1) then
                  (if currentAction s1 \<noteq> SpinR \<or> checkDebounce s1 now ACTION_DEBOUNCE
                   then s1\<lparr>nextAction := SpinR\<rparr> else s1)
                else if l1 (stick s1) then
                  (if currentAction s1 \<noteq> SpinL \<or> checkDebounce s1 now ACTION_DEBOUNCE
                   then s1\<lparr>nextAction := SpinL\<rparr> else s1)
                else s1)
             else s1)
      in if actionQueueStatus = 0 then move s2 (ly (stick s2)) (rx (stick s2)) else s2)"

section \<open>The main loop\<close>

text \<open>
  One iteration of \<open>loop\<close>. What the outside world supplies to it: whether the gamepad is
  connected, and then the clock readings and the gamepad readings, in the order in which
  the iteration asks for them.
  \<^item> \<open>Connected t_chk t_set t_exec t_deb inp\<close>: the clock in \<open>processActionQueue\<close> (twice),
    in \<open>executeAction\<close> and in \<open>processController\<close>, and the gamepad readings;
  \<^item> \<open>Disconnected t_chk t_set\<close>: the clock in the test of the reconnect timer and in the
    assignment to it.
\<close>

datatype tick =
    Connected millis millis millis millis Controller
  | Disconnected millis millis

definition reconnect :: "event list" where
  "reconnect = [RemovePairedDevices, PS4_end, PS4_begin]"

fun loop :: "state \<Rightarrow> tick \<Rightarrow> state" where
  "loop s (Connected t_chk t_set t_exec t_deb inp) =
     (let (actionQueueStatus, s1) = processActionQueue s t_chk t_set;
          s2 = executeAction s1 t_exec
      in processController s2 actionQueueStatus inp t_deb)"
| "loop s (Disconnected t_chk t_set) =
     (let s1 = reset s
      in if t_chk - stickReconnectTimer s1 > STICK_RECONNECT_DELAY
         then (emit reconnect s1)\<lparr>stickReconnectTimer := t_set\<rparr>
         else s1)"

text \<open>The firmware running over a sequence of iterations.\<close>

fun run :: "state \<Rightarrow> tick list \<Rightarrow> state" where
  "run s [] = s"
| "run s (t # ts) = run (loop s t) ts"

section \<open>The older sketch\<close>

text \<open>
  The file \<open>sumo.ino\<close> holds two older sketches. They differ from the newest one in the
  places below, which are recorded here for comparison only; nothing else in this
  development depends on them.
  \<^item> \<open>spinR\<close> of the second sketch tests \<^verbatim>\<open>if (checkDebounce(100))\<close>, without the negation
    and with the literal 100; that sketch declares \<open>SPIN_ACTIVE\<close> but does not use it (the
    first sketch has no phases at all).
  \<^item> the disconnected branch of \<open>loop\<close> of the second sketch calls \<open>removePairedDevices()\<close> only
    and never assigns \<open>stickReconnectTimer\<close>. In that sketch the three pins of the left wheel
    are all 0, so its \<open>reset()\<close> writes the stop command to other pins than the newest one.
\<close>

definition spinR_cmd_old :: "state \<Rightarrow> millis \<Rightarrow> real \<times> real" where
  "spinR_cmd_old s now =
     (if checkDebounce s now 100 then (SPIN_SPEED * ROT_LEAD, - SPIN_SPEED * ROT_TRAIL)
      else (0, 0))"

text \<open>
  What \<open>reset()\<close>, that is \<open>setSpeed(0, 0)\<close>, writes in the second sketch, where
  \<open>PIN_R_SPD = 25\<close>, \<open>PIN_R_FWD = 32\<close>, \<open>PIN_R_BWD = 33\<close> and
  \<open>PIN_L_SPD = PIN_L_FWD = PIN_L_BWD = 0\<close>.
\<close>

definition reset_writes_old :: "event list" where
  "reset_writes_old =
     [DigitalWrite 32 1, DigitalWrite 33 0,
      DigitalWrite 0 1, DigitalWrite 0 0,
      AnalogWrite 25 0, AnalogWrite 0 0]"

definition loop_disconnected_old :: "state \<Rightarrow> millis \<Rightarrow> state" where
  "loop_disconnected_old s t_chk =
     (let s1 = emit reset_writes_old s
      in if t_chk - stickReconnectTimer s1 > STICK_RECONNECT_DELAY
         then emit [RemovePairedDevices] s1
         else s1)"

section \<open>Notions of the specification\<close>

text \<open>
  The definitions of this section do not come from the code. They write down the words
  of the specification, so that the code can be compared with them.
\<close>

text \<open>Linear interpolation of \<open>v\<close> from the range \<open>[a, b]\<close> to the range \<open>[c, d]\<close>.\<close>

definition lerp :: "real \<Rightarrow> real \<Rightarrow> real \<Rightarrow> real \<Rightarrow> real \<Rightarrow> real" where
  "lerp v a b c d = c + (v - a) * (d - c) / (b - a)"

text \<open>
  The response curve \<open>shape(raw, zone, fine, max, outMin, outMid, outMax)\<close>: the sign of
  \<open>raw\<close> times a magnitude that is 0 in the dead zone and interpolated on the two segments.
\<close>

definition shape :: "int \<Rightarrow> int \<Rightarrow> int \<Rightarrow> int \<Rightarrow> int \<Rightarrow> int \<Rightarrow> int \<Rightarrow> real" where
  "shape raw zone fine mx outMin outMid outMax =
     of_int (sgn raw) *
       (if \<bar>raw\<bar> \<le> zone then 0
        else if \<bar>raw\<bar> \<le> fine then
          lerp (of_int \<bar>raw\<bar>) (of_int zone) (of_int fine) (of_int outMin) (of_int outMid)
        else
          lerp (of_int \<bar>raw\<bar>) (of_int fine) (of_int mx) (of_int outMid) (of_int outMax))"

text \<open>The duty cycle of a normalised wheel speed: its magnitude scaled to 255, rounded down.\<close>

definition duty :: "real \<Rightarrow> int" where
  "duty v = \<lfloor>\<bar>v\<bar> * 255\<rfloor>"

text \<open>The pin and value of every \<open>analogWrite\<close>, respectively \<open>digitalWrite\<close>, of a trace.\<close>

fun analog_writes :: "event list \<Rightarrow> (int \<times> int) list" where
  "analog_writes [] = []"
| "analog_writes (AnalogWrite p v # es) = (p, v) # analog_writes es"
| "analog_writes (e # es) = analog_writes es"

fun digital_writes :: "event list \<Rightarrow> (int \<times> int) list" where
  "digital_writes [] = []"
| "digital_writes (DigitalWrite p v # es) = (p, v) # digital_writes es"
| "digital_writes (e # es) = digital_writes es"

text \<open>The stop command: both wheels forward with duty cycle 0.\<close>

definition stop_writes :: "event list" where
  "stop_writes =
     [DigitalWrite PIN_R_FWD 1, DigitalWrite PIN_R_BWD 0,
      DigitalWrite PIN_L_FWD 1, DigitalWrite PIN_L_BWD 0,
      AnalogWrite PIN_R_SPD 0, AnalogWrite PIN_L_SPD 0]"

text \<open>
  Queue admission. The buttons in priority order with the action each requests; the
  requested action is that of the first asserted button; it is accepted when it differs
  from the current action, or equals it and more than 200 ms have passed since its start.
\<close>

definition priority :: "((Controller \<Rightarrow> bool) \<times> Action) list" where
  "priority = [(x_btn, DashF), (sq, DashB), (r1, SpinR), (l1, SpinL)]"

definition requested :: "Controller \<Rightarrow> Action option" where
  "requested c = map_option snd (find (\<lambda>ba. fst ba c) priority)"

definition accepted :: "state \<Rightarrow> millis \<Rightarrow> Action \<Rightarrow> bool" where
  "accepted s now a =
     (a \<noteq> currentAction s \<or> (a = currentAction s \<and> now - lastActionStart s > 200))"

text \<open>The status as the comment above \<open>processActionQueue\<close> documents it.\<close>

definition documented_status :: "Action \<Rightarrow> Action \<Rightarrow> int" where
  "documented_status cur nxt = (if cur = Neutral then 0 else if nxt = Neutral then 1 else 2)"

text \<open>The wheel command of the spin that is the current action.\<close>

definition spin_cmd :: "state \<Rightarrow> millis \<Rightarrow> real \<times> real" where
  "spin_cmd s now = (if currentAction s = SpinR then spinR_cmd s now else spinL_cmd s now)"

text \<open>
  Reconnect attempts are counted by the calls of \<open>PS4.begin\<close> in the trace. An iteration
  lies in the window that opens at \<open>t0\<close> when it is connected, or when its test of the
  reconnect timer reads the clock at most \<open>STICK_RECONNECT_DELAY\<close> after \<open>t0\<close>.
\<close>

definition attempts :: "event list \<Rightarrow> nat" where
  "attempts evs = length (filter (\<lambda>e. e = PS4_begin) evs)"

fun in_window :: "millis \<Rightarrow> tick \<Rightarrow> bool" where
  "in_window t0 (Connected t_chk t_set t_exec t_deb inp) = True"
| "in_window t0 (Disconnected t_chk t_set) = (t_chk - t0 \<le> STICK_RECONNECT_DELAY)"

subsection \<open>Concrete inputs\<close>

definition released :: Controller where
  "released = \<lparr>rx = 0, ly = 0, x_btn = False, sq = False, r1 = False, l1 = False\<rparr>"

definition pressed :: "bool \<Rightarrow> bool \<Rightarrow> bool \<Rightarrow> bool \<Rightarrow> Controller" where
  "pressed bx bsq br1 bl1 = \<lparr>rx = 0, ly = 0, x_btn = bx, sq = bsq, r1 = br1, l1 = bl1\<rparr>"

definition state_of :: "Action \<Rightarrow> Action \<Rightarrow> millis \<Rightarrow> state" where
  "state_of cur nxt t0 =
     \<lparr>stick = released, currentAction = cur, nextAction = nxt, lastActionStart = t0,
      stickReconnectTimer = 0, trace = []\<rparr>"

definition example_ticks :: "tick list" where
  "example_ticks =
     [Disconnected 4000 4000,
      Connected 4100 4100 4100 4100 (pressed True False False False),
      Disconnected 6002 6003]"

section \<open>Basic facts\<close>

lemma verify_bounds: "- 1 \<le> verify v \<and> verify v \<le> 1"
  by (simp add: verify_def)

lemma verify_clamp: "verify v = max (- 1) (min 1 v)"
  by (simp add: verify_def max_def min_def)

lemma verify_idem: "- 1 \<le> v \<Longrightarrow> v \<le> 1 \<Longrightarrow> verify v = v"
  by (simp add: verify_def)

lemma duty_bounds:
  assumes "- 1 \<le> v" "v \<le> 1"
  shows "0 \<le> duty v \<and> duty v \<le> 255"
proof -
  have b: "\<bar>v\<bar> * 255 \<le> 255" using assms by (simp add: abs_le_iff)
  have "0 \<le> \<lfloor>\<bar>v\<bar> * 255\<rfloor>" by simp
  moreover have "\<lfloor>\<bar>v\<bar> * 255\<rfloor> \<le> 255" using b by (simp add: floor_le_iff)
  ultimately show ?thesis by (simp add: duty_def)
qed

lemma setSpeed_writes_eq:
  "setSpeed_writes l r =
     (if verify r < 0 then [DigitalWrite PIN_R_BWD 1, DigitalWrite PIN_R_FWD 0]
      else [DigitalWrite PIN_R_FWD 1, DigitalWrite PIN_R_BWD 0]) @
     (if verify l < 0 then [DigitalWrite PIN_L_BWD 1, DigitalWrite PIN_L_FWD 0]
      else [DigitalWrite PIN_L_FWD 1, DigitalWrite PIN_L_BWD 0]) @
     [AnalogWrite PIN_R_SPD (duty (verify r)), AnalogWrite PIN_L_SPD (duty (verify l))]"
  by (simp add: setSpeed_writes_def Let_def duty_def int_of_float_def abs_if)

lemma setSpeed_writes_zero: "setSpeed_writes 0 0 = stop_writes"
  by (simp add: setSpeed_writes_def verify_def int_of_float_def stop_writes_def)

lemma setSpeed_writes_spin_right:
  "setSpeed_writes 1 (- 1) =
     [DigitalWrite PIN_R_BWD 1, DigitalWrite PIN_R_FWD 0,
      DigitalWrite PIN_L_FWD 1, DigitalWrite PIN_L_BWD 0,
      AnalogWrite PIN_R_SPD 255, AnalogWrite PIN_L_SPD 255]"
  by (simp add: setSpeed_writes_def verify_def int_of_float_def)

lemma setSpeed_frame [simp]:
  "currentAction (setSpeed s l r) = currentAction s"
  "nextAction (setSpeed s l r) = nextAction s"
  "lastActionStart (setSpeed s l r) = lastActionStart s"
  "stickReconnectTimer (setSpeed s l r) = stickReconnectTimer s"
  "stick (setSpeed s l r) = stick s"
  by (simp_all add: setSpeed_def emit_def)

lemma setSpeed_trace: "trace (setSpeed s l r) = trace s @ setSpeed_writes l r"
  by (simp add: setSpeed_def emit_def)

lemma reset_trace: "reset s = s\<lparr>trace := trace s @ stop_writes\<rparr>"
  by (simp add: reset_def setSpeed_def emit_def setSpeed_writes_zero)

lemma move_frame [simp]:
  "currentAction (move s a b) = currentAction s"
  "nextAction (move s a b) = nextAction s"
  "lastActionStart (move s a b) = lastActionStart s"
  "stickReconnectTimer (move s a b) = stickReconnectTimer s"
  "stick (move s a b) = stick s"
  by (simp_all add: move_def Let_def)

lemma move_trace:
  "trace (move s a b) =
     trace s @ setSpeed_writes (fst (move_rescale (move_sums a b)))
                               (snd (move_rescale (move_sums a b)))"
  by (simp add: move_def setSpeed_def emit_def Let_def)

lemma executeAction_frame [simp]:
  "currentAction (executeAction s now) = currentAction s"
  "nextAction (executeAction s now) = nextAction s"
  "lastActionStart (executeAction s now) = lastActionStart s"
  "stickReconnectTimer (executeAction s now) = stickReconnectTimer s"
  by (simp_all add: executeAction_def dashF_def dashB_def spinR_def spinL_def)

lemma getCooldown_cases:
  "getCooldown Neutral = 0" "getCooldown DashF = 300" "getCooldown DashB = 300"
  "getCooldown SpinR = 300" "getCooldown SpinL = 300"
  by (simp_all add: getCooldown_def DASH_DURATION_def SPIN_DURATION_def)

lemma processActionQueue_status:
  "fst (processActionQueue s t_chk t_set) =
     notnot (currentAction (snd (processActionQueue s t_chk t_set)))
       + notnot (nextAction (snd (processActionQueue s t_chk t_set)))"
  by (simp add: processActionQueue_def Let_def)

lemma processActionQueue_idle:
  "currentAction (snd (processActionQueue s t_chk t_set)) = Neutral
   \<Longrightarrow> nextAction (snd (processActionQueue s t_chk t_set)) = Neutral"
  by (simp add: processActionQueue_def Let_def reset_def split: if_splits)

text \<open>While the cooldown has not passed, and also at the instant it is reached, nothing changes.\<close>

lemma processActionQueue_waits:
  assumes "currentAction s \<noteq> Neutral"
    and "t_chk - lastActionStart s \<le> getCooldown (currentAction s)"
  shows "snd (processActionQueue s t_chk t_set) = s"
  using assms
  by (simp add: processActionQueue_def checkCooldown_def checkDebounce_def Let_def not_less)

lemma processController_full:
  "currentAction (processController s 2 inp now) = currentAction s"
  "nextAction (processController s 2 inp now) = nextAction s"
  "lastActionStart (processController s 2 inp now) = lastActionStart s"
  by (simp_all add: processController_def)

lemma requested_cases:
  "requested c =
     (if x_btn c then Some DashF else if sq c then Some DashB
      else if r1 c then Some SpinR else if l1 c then Some SpinL else None)"
  by (simp add: requested_def priority_def)

lemma loop_connected:
  "loop s (Connected t_chk t_set t_exec t_deb inp) =
     processController (executeAction (snd (processActionQueue s t_chk t_set)) t_exec)
       (fst (processActionQueue s t_chk t_set)) inp t_deb"
  by (simp add: split_def Let_def)

lemma loop_disconnected:
  "loop s (Disconnected t_chk t_set) =
     (if t_chk - stickReconnectTimer s > STICK_RECONNECT_DELAY
      then s\<lparr>stickReconnectTimer := t_set, trace := trace s @ stop_writes @ reconnect\<rparr>
      else s\<lparr>trace := trace s @ stop_writes\<rparr>)"
  by (simp add: reset_def setSpeed_def emit_def setSpeed_writes_zero Let_def)

declare loop.simps [simp del]

section \<open>The action queue: cooldown expiry\<close>

text \<open>
  C1, amended. The claim asks for an elapsed time of at least the cooldown; the code
  promotes only once the elapsed time is strictly greater (\<open>checkDebounce\<close> compares with
  \<open>>\<close>). With that change the claim holds: for every state whose current action is not
  \<open>Neutral\<close>, when \<open>processActionQueue\<close> reads a clock value \<open>t_chk\<close> with
  \<open>t_chk - lastActionStart\<close> (in 32-bit unsigned arithmetic) greater than the cooldown of the
  current action, it first writes the stop command if the current action is a spin, then
  the current action becomes the old next action, the next action becomes \<open>Neutral\<close>, and
  \<open>lastActionStart\<close> becomes the clock value \<open>t_set\<close> read for it exactly when the new current
  action is not \<open>Neutral\<close>; otherwise it keeps its value.
\<close>

theorem processActionQueue_promotes_after_cooldown:
  assumes "currentAction s \<noteq> Neutral"
    and "t_chk - lastActionStart s > getCooldown (currentAction s)"
  shows "trace (snd (processActionQueue s t_chk t_set)) =
           trace s @ (if currentAction s = SpinR \<or> currentAction s = SpinL then stop_writes else [])
       \<and> currentAction (snd (processActionQueue s t_chk t_set)) = nextAction s
       \<and> nextAction (snd (processActionQueue s t_chk t_set)) = Neutral
       \<and> lastActionStart (snd (processActionQueue s t_chk t_set)) =
           (if nextAction s \<noteq> Neutral then t_set else lastActionStart s)"
  using assms
  by (simp add: processActionQueue_def checkCooldown_def checkDebounce_def Let_def reset_trace)

text \<open>
  A spin with a dash queued, started at time 0 and looked at 301 ms later: the stop
  command is written, the dash becomes current and is stamped with the new clock value.
\<close>

theorem processActionQueue_promotes_after_cooldown_witness:
  "currentAction (state_of SpinR DashF 0) \<noteq> Neutral
   \<and> 301 - lastActionStart (state_of SpinR DashF 0)
       > getCooldown (currentAction (state_of SpinR DashF 0))
   \<and> trace (snd (processActionQueue (state_of SpinR DashF 0) 301 302)) = stop_writes
   \<and> currentAction (snd (processActionQueue (state_of SpinR DashF 0) 301 302)) = DashF
   \<and> nextAction (snd (processActionQueue (state_of SpinR DashF 0) 301 302)) = Neutral
   \<and> lastActionStart (snd (processActionQueue (state_of SpinR DashF 0) 301 302)) = 302"
proof -
  have h1: "currentAction (state_of SpinR DashF 0) \<noteq> Neutral"
    by (simp add: state_of_def)
  have h2: "301 - lastActionStart (state_of SpinR DashF 0)
              > getCooldown (currentAction (state_of SpinR DashF 0))"
    by (simp add: state_of_def getCooldown_cases)
  show ?thesis
    using h1 h2 processActionQueue_promotes_after_cooldown [OF h1 h2, of 302]
    by (simp add: state_of_def)
qed

text \<open>
  C1 as stated fails when the elapsed time equals the cooldown. A dash started at time 0
  with a spin queued, looked at exactly 300 ms later: the elapsed time is at least the
  cooldown, yet the dash stays current and the spin stays queued.
\<close>

theorem processActionQueue_at_cooldown_counterexample:
  "currentAction (state_of DashF SpinR 0) \<noteq> Neutral
   \<and> 300 - lastActionStart (state_of DashF SpinR 0)
       \<ge> getCooldown (currentAction (state_of DashF SpinR 0))
   \<and> currentAction (snd (processActionQueue (state_of DashF SpinR 0) 300 300))
       \<noteq> nextAction (state_of DashF SpinR 0)
   \<and> nextAction (snd (processActionQueue (state_of DashF SpinR 0) 300 300)) \<noteq> Neutral"
  by (simp add: state_of_def processActionQueue_def checkCooldown_def checkDebounce_def
      getCooldown_cases Let_def)

section \<open>Queue admission\<close>

text \<open>
  C2. When the status passed to \<open>processController\<close> is not 2, only the first asserted
  button in the order dash forward, dash backward, spin right, spin left counts, and the
  action it requests is written into \<open>nextAction\<close> if and only if it differs from the current
  action, or equals it and more than 200 ms have passed since \<open>lastActionStart\<close>. Otherwise
  \<open>nextAction\<close> keeps its value. The current action and its start time are not touched.
\<close>

theorem processController_enqueue:
  assumes "actionQueueStatus \<noteq> 2"
  shows "nextAction (processController s actionQueueStatus inp now) =
           (case requested inp of
              None \<Rightarrow> nextAction s
            | Some a \<Rightarrow> if accepted s now a then a else nextAction s)
       \<and> currentAction (processController s actionQueueStatus inp now) = currentAction s
       \<and> lastActionStart (processController s actionQueueStatus inp now) = lastActionStart s"
  using assms
  by (auto simp add: processController_def Let_def requested_cases accepted_def
      checkDebounce_def ACTION_DEBOUNCE_def)

text \<open>
  Square, R1 and L1 held together request the backward dash. While a backward dash runs
  it is not queued again 200 ms after its start, it is queued 201 ms after its start,
  and it is queued at once behind a left spin.
\<close>

theorem processController_enqueue_witness:
  "(1::int) \<noteq> 2
   \<and> requested (pressed False True True True) = Some DashB
   \<and> nextAction (processController (state_of DashB Neutral 0) 1
        (pressed False True True True) 200) = Neutral
   \<and> nextAction (processController (state_of DashB Neutral 0) 1
        (pressed False True True True) 201) = DashB
   \<and> nextAction (processController (state_of SpinL Neutral 0) 1
        (pressed False True True True) 50) = DashB"
proof -
  have h: "(1::int) \<noteq> 2" by simp
  have r: "requested (pressed False True True True) = Some DashB"
    by (simp add: requested_cases pressed_def)
  show ?thesis
    using h r
      processController_enqueue [OF h, of "state_of DashB Neutral 0" "pressed False True True True" 200]
      processController_enqueue [OF h, of "state_of DashB Neutral 0" "pressed False True True True" 201]
      processController_enqueue [OF h, of "state_of SpinL Neutral 0" "pressed False True True True" 50]
    by (simp add: accepted_def state_of_def)
qed

section \<open>Linear interpolation on a degenerate range\<close>

lemma fmap_degenerate:
  "\<bar>in_max - in_min\<bar> < EPSILON \<Longrightarrow> fmap x in_min in_max out_min out_max = in_max"
  by (simp add: fmap_def)

text \<open>
  C3. The claim says that \<open>fmap\<close> returns the upper output bound \<open>out_max\<close> when the input
  range is narrower than \<open>EPSILON\<close>. The guard of the code returns \<open>in_max\<close>, the upper bound
  of the input range: mapping from the range \<open>[5, 5]\<close> to \<open>[20, 70]\<close> yields 5, not 70.
\<close>

theorem fmap_degenerate_returns_input_bound:
  "\<bar>5 - 5 :: real\<bar> < EPSILON \<and> fmap 0 5 5 20 70 = 5 \<and> fmap 0 5 5 20 70 \<noteq> 70"
  by (simp add: fmap_def EPSILON_def)

section \<open>Spin phases\<close>

text \<open>
  C4. While a spin is the current action, \<open>executeAction\<close> hands \<open>setSpeed\<close> the command
  \<open>spin_cmd\<close>. As long as the elapsed time \<open>now - lastActionStart\<close> is at most \<open>SPIN_ACTIVE\<close>
  (100 ms) the command is nonzero with opposite signs: for the right spin the left wheel
  gets \<open>SPIN_SPEED * ROT_LEAD\<close> and the right wheel \<open>- SPIN_SPEED * ROT_TRAIL\<close>, mirrored for
  the left spin; these are the pairs that the rotation split of \<open>move\<close> produces for a
  rotation of \<open>SPIN_SPEED\<close> to the right and to the left. Once the elapsed time exceeds
  \<open>SPIN_ACTIVE\<close> the command is \<open>(0, 0)\<close>.
\<close>

theorem spin_phases:
  assumes "currentAction s = SpinR \<or> currentAction s = SpinL"
  shows "trace (executeAction s now) =
           trace s @ setSpeed_writes (fst (spin_cmd s now)) (snd (spin_cmd s now))
       \<and> spin_cmd s now =
           (if now - lastActionStart s \<le> SPIN_ACTIVE then
              (if currentAction s = SpinR then (SPIN_SPEED * ROT_LEAD, - (SPIN_SPEED * ROT_TRAIL))
               else (- (SPIN_SPEED * ROT_TRAIL), SPIN_SPEED * ROT_LEAD))
            else (0, 0))
       \<and> 0 < SPIN_SPEED * ROT_LEAD \<and> - (SPIN_SPEED * ROT_TRAIL) < 0
       \<and> move_split SPIN_SPEED = (SPIN_SPEED * ROT_LEAD, - (SPIN_SPEED * ROT_TRAIL))
       \<and> move_split (- SPIN_SPEED) = (- (SPIN_SPEED * ROT_TRAIL), SPIN_SPEED * ROT_LEAD)"
proof -
  have tr: "trace (executeAction s now) =
      trace s @ setSpeed_writes (fst (spin_cmd s now)) (snd (spin_cmd s now))"
    using assms
    by (auto simp add: executeAction_def spinR_def spinL_def spin_cmd_def setSpeed_trace)
  have cmd: "spin_cmd s now =
           (if now - lastActionStart s \<le> SPIN_ACTIVE then
              (if currentAction s = SpinR then (SPIN_SPEED * ROT_LEAD, - (SPIN_SPEED * ROT_TRAIL))
               else (- (SPIN_SPEED * ROT_TRAIL), SPIN_SPEED * ROT_LEAD))
            else (0, 0))"
    by (simp add: spin_cmd_def spinR_cmd_def spinL_cmd_def checkDebounce_def not_less)
  have sg: "0 < SPIN_SPEED * ROT_LEAD \<and> - (SPIN_SPEED * ROT_TRAIL) < 0"
    by (simp add: action_defs)
  have sp: "move_split SPIN_SPEED = (SPIN_SPEED * ROT_LEAD, - (SPIN_SPEED * ROT_TRAIL))"
    "move_split (- SPIN_SPEED) = (- (SPIN_SPEED * ROT_TRAIL), SPIN_SPEED * ROT_LEAD)"
    by (simp_all add: move_split_def Let_def action_defs)
  from tr cmd sg sp show ?thesis by blast
qed

text \<open>
  A spin started at time 1000: full speed in opposite directions up to time 1100, the
  stop command from time 1101 on.
\<close>

theorem spin_phases_witness:
  "(currentAction (state_of SpinR Neutral 1000) = SpinR
      \<or> currentAction (state_of SpinR Neutral 1000) = SpinL)
   \<and> spin_cmd (state_of SpinR Neutral 1000) 1100 = (1, - 1)
   \<and> spin_cmd (state_of SpinR Neutral 1000) 1101 = (0, 0)
   \<and> spin_cmd (state_of SpinL Neutral 1000) 1000 = (- 1, 1)
   \<and> spin_cmd (state_of SpinL Neutral 1000) 1299 = (0, 0)
   \<and> trace (executeAction (state_of SpinR Neutral 1000) 1100) =
       [DigitalWrite PIN_R_BWD 1, DigitalWrite PIN_R_FWD 0,
        DigitalWrite PIN_L_FWD 1, DigitalWrite PIN_L_BWD 0,
        AnalogWrite PIN_R_SPD 255, AnalogWrite PIN_L_SPD 255]
   \<and> trace (executeAction (state_of SpinR Neutral 1000) 1101) = stop_writes"
proof -
  have h: "currentAction (state_of SpinR Neutral 1000) = SpinR
           \<or> currentAction (state_of SpinR Neutral 1000) = SpinL"
    by (simp add: state_of_def)
  have h': "currentAction (state_of SpinL Neutral 1000) = SpinR
           \<or> currentAction (state_of SpinL Neutral 1000) = SpinL"
    by (simp add: state_of_def)
  show ?thesis
    using h setSpeed_writes_spin_right setSpeed_writes_zero
      spin_phases [OF h, of 1100] spin_phases [OF h, of 1101]
      spin_phases [OF h', of 1000] spin_phases [OF h', of 1299]
    by (simp add: state_of_def action_defs)
qed

text \<open>The second sketch of \<open>sumo.ino\<close> has the two phases the other way round.\<close>

lemma spinR_cmd_old_phases:
  "spinR_cmd_old s now =
     (if now - lastActionStart s \<le> 100 then (0, 0)
      else (SPIN_SPEED * ROT_LEAD, - (SPIN_SPEED * ROT_TRAIL)))"
proof (cases "100 < now - lastActionStart s")
  case True
  then have "\<not> now - lastActionStart s \<le> 100" by (simp only: not_le)
  with True show ?thesis
    by (simp only: spinR_cmd_old_def checkDebounce_def if_True if_False mult_minus_left)
next
  case False
  then have "now - lastActionStart s \<le> 100" by (simp only: not_less)
  with False show ?thesis
    by (simp only: spinR_cmd_old_def checkDebounce_def if_True if_False)
qed

section \<open>The output stage\<close>

text \<open>
  C5. For all real wheel commands \<open>l\<close> and \<open>r\<close>, also outside \<open>[-1, 1]\<close>, \<open>setSpeed\<close> first
  clamps both into \<open>[-1, 1]\<close> and everything it writes depends on the clamped values only:
  the direction pins of each wheel follow the sign of the clamped value, and the duty
  cycle written for each wheel is the clamped magnitude scaled to 255 and rounded down,
  a value between 0 and 255. No command is rejected: the six writes are always made.
\<close>

theorem setSpeed_clamps:
  "- 1 \<le> verify l \<and> verify l \<le> 1 \<and> - 1 \<le> verify r \<and> verify r \<le> 1
   \<and> verify l = max (- 1) (min 1 l) \<and> verify r = max (- 1) (min 1 r)
   \<and> trace (setSpeed s l r) = trace s @ setSpeed_writes l r
   \<and> setSpeed_writes l r = setSpeed_writes (verify l) (verify r)
   \<and> digital_writes (setSpeed_writes l r) =
       (if verify r < 0 then [(PIN_R_BWD, 1), (PIN_R_FWD, 0)]
        else [(PIN_R_FWD, 1), (PIN_R_BWD, 0)]) @
       (if verify l < 0 then [(PIN_L_BWD, 1), (PIN_L_FWD, 0)]
        else [(PIN_L_FWD, 1), (PIN_L_BWD, 0)])
   \<and> analog_writes (setSpeed_writes l r) =
       [(PIN_R_SPD, duty (verify r)), (PIN_L_SPD, duty (verify l))]
   \<and> 0 \<le> duty (verify r) \<and> duty (verify r) \<le> 255
   \<and> 0 \<le> duty (verify l) \<and> duty (verify l) \<le> 255"
proof -
  have idem: "verify (verify v) = verify v" for v
    using verify_bounds [of v] by (simp add: verify_idem)
  have same: "setSpeed_writes l r = setSpeed_writes (verify l) (verify r)"
    by (simp only: setSpeed_writes_eq idem)
  have dw: "digital_writes (setSpeed_writes l r) =
       (if verify r < 0 then [(PIN_R_BWD, 1), (PIN_R_FWD, 0)]
        else [(PIN_R_FWD, 1), (PIN_R_BWD, 0)]) @
       (if verify l < 0 then [(PIN_L_BWD, 1), (PIN_L_FWD, 0)]
        else [(PIN_L_FWD, 1), (PIN_L_BWD, 0)])"
    by (simp add: setSpeed_writes_eq)
  have aw: "analog_writes (setSpeed_writes l r) =
       [(PIN_R_SPD, duty (verify r)), (PIN_L_SPD, duty (verify l))]"
    by (simp add: setSpeed_writes_eq)
  have bl: "- 1 \<le> verify l" "verify l \<le> 1" using verify_bounds [of l] by simp_all
  have br: "- 1 \<le> verify r" "verify r \<le> 1" using verify_bounds [of r] by simp_all
  have dl: "0 \<le> duty (verify l)" "duty (verify l) \<le> 255"
    using duty_bounds [OF bl] by simp_all
  have dr: "0 \<le> duty (verify r)" "duty (verify r) \<le> 255"
    using duty_bounds [OF br] by simp_all
  from bl br verify_clamp [of l] verify_clamp [of r] setSpeed_trace [of s l r] same dw aw dr dl
  show ?thesis by - (intro conjI; assumption)
qed

text \<open>
  The command \<open>(2, -3)\<close> is treated as \<open>(1, -1)\<close>: right wheel backward, left wheel forward,
  both at duty cycle 255.
\<close>

theorem setSpeed_clamps_witness:
  "verify 2 = 1 \<and> verify (- 3) = - 1
   \<and> setSpeed_writes 2 (- 3) = setSpeed_writes 1 (- 1)
   \<and> digital_writes (setSpeed_writes 2 (- 3)) =
       [(PIN_R_BWD, 1), (PIN_R_FWD, 0), (PIN_L_FWD, 1), (PIN_L_BWD, 0)]
   \<and> analog_writes (setSpeed_writes 2 (- 3)) = [(PIN_R_SPD, 255), (PIN_L_SPD, 255)]"
proof -
  have v: "verify 2 = 1" "verify (- 3) = - 1"
    by (simp_all add: verify_def)
  have d: "duty 1 = 255" "duty (- 1) = 255"
    by (simp_all add: duty_def)
  note t = setSpeed_clamps [of 2 "- 3" "state_of Neutral Neutral 0"]
  from t have sm: "setSpeed_writes 2 (- 3) = setSpeed_writes (verify 2) (verify (- 3))"
    by (elim conjE)
  from t have dw: "digital_writes (setSpeed_writes 2 (- 3)) =
       (if verify (- 3) < 0 then [(PIN_R_BWD, 1), (PIN_R_FWD, 0)]
        else [(PIN_R_FWD, 1), (PIN_R_BWD, 0)]) @
       (if verify 2 < 0 then [(PIN_L_BWD, 1), (PIN_L_FWD, 0)]
        else [(PIN_L_FWD, 1), (PIN_L_BWD, 0)])"
    by (elim conjE)
  from t have aw: "analog_writes (setSpeed_writes 2 (- 3)) =
       [(PIN_R_SPD, duty (verify (- 3))), (PIN_L_SPD, duty (verify 2))]"
    by (elim conjE)
  have c3: "setSpeed_writes 2 (- 3) = setSpeed_writes 1 (- 1)"
    using sm by (simp only: v)
  have c4: "digital_writes (setSpeed_writes 2 (- 3)) =
       [(PIN_R_BWD, 1), (PIN_R_FWD, 0), (PIN_L_FWD, 1), (PIN_L_BWD, 0)]"
    unfolding dw v by simp
  have c5: "analog_writes (setSpeed_writes 2 (- 3)) = [(PIN_R_SPD, 255), (PIN_L_SPD, 255)]"
    unfolding aw v d by (rule refl)
  from v c3 c4 c5 show ?thesis by - (intro conjI; assumption)
qed

section \<open>The response curve\<close>

lemma lerp_endpoints: "lerp a a b c d = c" "a \<noteq> b \<Longrightarrow> lerp b a b c d = d"
  by (simp_all add: lerp_def)

lemma fmap_lerp: "EPSILON \<le> \<bar>b - a\<bar> \<Longrightarrow> fmap v a b c d = lerp v a b c d"
  by (simp add: fmap_def lerp_def)

lemma sign_sgn: "raw \<noteq> 0 \<Longrightarrow> (if raw < 0 then - 1 else (1::int)) = sgn raw"
  by (simp add: sgn_if)

lemma sgn_of_int_sgn: "sgn (of_int (sgn (raw::int)) :: real) = of_int (sgn raw)"
  by (simp add: sgn_if)

lemma mapSpeedStick_shape:
  "mapSpeedStick raw = shape raw STICK_ZERO STICK_FINE STICK_MAX SPEED_MIN SPEED_MID SPEED_MAX"
proof (cases "raw = 0")
  case True
  then show ?thesis by (simp add: mapSpeedStick_def shape_def STICK_ZERO_def)
next
  case False
  then show ?thesis
    by (simp add: mapSpeedStick_def shape_def Let_def sign_sgn fmap_lerp stick_defs)
qed

lemma mapRotStick_shape:
  "mapRotStick raw = shape raw STICK_ZERO STICK_FINE STICK_MAX ROT_MIN ROT_MID ROT_MAX"
proof (cases "raw = 0")
  case True
  then show ?thesis by (simp add: mapRotStick_def shape_def STICK_ZERO_def)
next
  case False
  then show ?thesis
    by (simp add: mapRotStick_def shape_def Let_def sign_sgn fmap_lerp stick_defs)
qed

lemma lerp_pos:
  assumes "a < b" "0 < c" "c \<le> d" "a \<le> v"
  shows "0 < lerp v a b c d"
proof -
  have "0 \<le> (v - a) * (d - c) / (b - a)" using assms by simp
  with assms(2) show ?thesis by (simp add: lerp_def)
qed

lemma shape_sgn:
  assumes "0 \<le> zone" "zone < fine" "fine < mx" "0 < outMin" "outMin \<le> outMid" "outMid \<le> outMax"
  shows "sgn (shape raw zone fine mx outMin outMid outMax) =
           (if \<bar>raw\<bar> \<le> zone then 0 else of_int (sgn raw))"
proof (cases "\<bar>raw\<bar> \<le> zone")
  case True
  then show ?thesis by (simp add: shape_def)
next
  case out: False
  show ?thesis
  proof (cases "\<bar>raw\<bar> \<le> fine")
    case True
    have "0 < lerp (of_int \<bar>raw\<bar>) (of_int zone) (of_int fine) (of_int outMin) (of_int outMid)"
      using assms out by (intro lerp_pos) simp_all
    then show ?thesis using out True by (simp add: shape_def sgn_mult sgn_of_int_sgn)
  next
    case False
    have "0 < lerp (of_int \<bar>raw\<bar>) (of_int fine) (of_int mx) (of_int outMid) (of_int outMax)"
      using assms False by (intro lerp_pos) simp_all
    then show ?thesis using out False by (simp add: shape_def sgn_mult sgn_of_int_sgn)
  qed
qed

lemma mapSpeedStick_values:
  "mapSpeedStick 0 = 0" "mapSpeedStick 10 = 0" "mapSpeedStick (- 10) = 0"
  "mapSpeedStick 11 = 185 / 9" "mapSpeedStick (- 55) = - 45" "mapSpeedStick 100 = 70"
  "mapSpeedStick 101 = 995 / 14" "mapSpeedStick 128 = 100" "mapSpeedStick (- 128) = - 100"
  by (simp_all add: mapSpeedStick_def fmap_def Let_def stick_defs)

text \<open>
  C6. For every raw stick value, \<open>mapSpeedStick\<close> is the response curve of the
  specification with the speed calibration, and \<open>mapRotStick\<close> the one with the rotation
  calibration: the sign of the input times a magnitude that is exactly 0 when \<open>|raw|\<close> is
  at most \<open>STICK_ZERO\<close>, the linear interpolation from \<open>[STICK_ZERO, STICK_FINE]\<close> to
  \<open>[MIN, MID]\<close> when \<open>|raw|\<close> is at most \<open>STICK_FINE\<close>, and the linear interpolation from
  \<open>[STICK_FINE, STICK_MAX]\<close> to \<open>[MID, MAX]\<close> otherwise. Outside the dead zone the result has
  the sign of the input.
\<close>

theorem mapSpeedStick_piecewise:
  "mapSpeedStick raw = shape raw STICK_ZERO STICK_FINE STICK_MAX SPEED_MIN SPEED_MID SPEED_MAX
   \<and> mapRotStick raw = shape raw STICK_ZERO STICK_FINE STICK_MAX ROT_MIN ROT_MID ROT_MAX
   \<and> sgn (mapSpeedStick raw) = (if \<bar>raw\<bar> \<le> STICK_ZERO then 0 else of_int (sgn raw))
   \<and> sgn (mapRotStick raw) = (if \<bar>raw\<bar> \<le> STICK_ZERO then 0 else of_int (sgn raw))"
proof -
  have s: "sgn (mapSpeedStick raw) = (if \<bar>raw\<bar> \<le> STICK_ZERO then 0 else of_int (sgn raw))"
    unfolding mapSpeedStick_shape by (rule shape_sgn) (simp_all add: stick_defs)
  have r: "sgn (mapRotStick raw) = (if \<bar>raw\<bar> \<le> STICK_ZERO then 0 else of_int (sgn raw))"
    unfolding mapRotStick_shape by (rule shape_sgn) (simp_all add: stick_defs)
  from mapSpeedStick_shape [of raw] mapRotStick_shape [of raw] s r
  show ?thesis by - (intro conjI; assumption)
qed

text \<open>
  The stick at \<open>-55\<close> lies on the first segment: \<open>20 + (55 - 10) * 50 / 90 = 45\<close>, with the
  sign of the input.
\<close>

theorem mapSpeedStick_piecewise_witness:
  "mapSpeedStick (- 55) = - 45 \<and> sgn (mapSpeedStick (- 55)) = - 1
   \<and> shape (- 55) STICK_ZERO STICK_FINE STICK_MAX SPEED_MIN SPEED_MID SPEED_MAX = - 45"
proof -
  have sh: "shape (- 55) STICK_ZERO STICK_FINE STICK_MAX SPEED_MIN SPEED_MID SPEED_MAX = - 45"
    by (simp add: shape_def lerp_def stick_defs)
  note t = mapSpeedStick_piecewise [of "- 55"]
  from t have a: "mapSpeedStick (- 55) =
      shape (- 55) STICK_ZERO STICK_FINE STICK_MAX SPEED_MIN SPEED_MID SPEED_MAX"
    by (elim conjE)
  have c1: "mapSpeedStick (- 55) = - 45" unfolding a sh by (rule refl)
  have c2: "sgn (mapSpeedStick (- 55)) = - 1" unfolding c1 by simp
  from c1 c2 sh show ?thesis by - (intro conjI; assumption)
qed


section \<open>The joint clamp of the mixer\<close>

lemma move_rescale_scaled:
  assumes "max \<bar>l\<bar> \<bar>r\<bar> > 1"
  shows "move_rescale (l, r) = (l / max \<bar>l\<bar> \<bar>r\<bar>, r / max \<bar>l\<bar> \<bar>r\<bar>)"
  using assms by (simp add: move_rescale_def Let_def)

lemma move_rescale_unchanged:
  assumes "max \<bar>l\<bar> \<bar>r\<bar> \<le> 1"
  shows "move_rescale (l, r) = (l, r)"
proof -
  from assms have "\<not> max \<bar>l\<bar> \<bar>r\<bar> > 1" by (simp only: not_less)
  then show ?thesis by (simp only: move_rescale_def Let_def fst_conv snd_conv if_False)
qed

lemma scaled_bound:
  fixes l r :: real
  assumes "max \<bar>l\<bar> \<bar>r\<bar> > 1"
  shows "max (abs (l / max \<bar>l\<bar> \<bar>r\<bar>)) (abs (r / max \<bar>l\<bar> \<bar>r\<bar>)) = 1"
proof -
  define mx where "mx = max \<bar>l\<bar> \<bar>r\<bar>"
  have pos: "0 < mx" using assms by (simp add: mx_def)
  have "max \<bar>l / mx\<bar> \<bar>r / mx\<bar> = max (\<bar>l\<bar> / mx) (\<bar>r\<bar> / mx)"
    using pos by simp
  also have "\<dots> = max \<bar>l\<bar> \<bar>r\<bar> / mx"
    using pos by (simp add: max_def divide_le_cancel)
  also have "\<dots> = 1" using pos by (simp add: mx_def)
  finally show ?thesis unfolding mx_def .
qed

text \<open>The two sticks pushed to 127 saturate the sums, so the rescaling is reached.\<close>

lemma move_sums_saturate: "max \<bar>fst (move_sums 127 127)\<bar> \<bar>snd (move_sums 127 127)\<bar> > 1"
  by (simp add: move_sums_def move_split_def mapSpeedStick_def mapRotStick_def fmap_def
      Let_def stick_defs)

text \<open>
  The conditional of \<open>move\<close> on its own, for arbitrary sums: the division by the larger
  magnitude, the bound, the ratio, and that the clamp of \<open>setSpeed\<close> has nothing left to do.
\<close>

lemma move_rescale_joint_clamp:
  assumes "max \<bar>l\<bar> \<bar>r\<bar> > 1"
  shows "move_rescale (l, r) = (l / max \<bar>l\<bar> \<bar>r\<bar>, r / max \<bar>l\<bar> \<bar>r\<bar>)
       \<and> max \<bar>fst (move_rescale (l, r))\<bar> \<bar>snd (move_rescale (l, r))\<bar> \<le> 1
       \<and> fst (move_rescale (l, r)) * r = snd (move_rescale (l, r)) * l
       \<and> (if r = 0 then snd (move_rescale (l, r)) = 0
           else fst (move_rescale (l, r)) / snd (move_rescale (l, r)) = l / r)
       \<and> verify (fst (move_rescale (l, r))) = fst (move_rescale (l, r))
       \<and> verify (snd (move_rescale (l, r))) = snd (move_rescale (l, r))"
proof -
  define mx where "mx = max \<bar>l\<bar> \<bar>r\<bar>"
  have pos: "0 < mx" using assms by (simp add: mx_def)
  have eq: "move_rescale (l, r) = (l / mx, r / mx)"
    unfolding mx_def using assms by (rule move_rescale_scaled)
  have one: "max \<bar>l / mx\<bar> \<bar>r / mx\<bar> = 1"
    unfolding mx_def using assms by (rule scaled_bound)
  then have bl: "\<bar>l / mx\<bar> \<le> 1" and br: "\<bar>r / mx\<bar> \<le> 1"
    by (metis max.cobounded1, metis max.cobounded2)
  have cross: "l / mx * r = r / mx * l" by simp
  have ratio: "r \<noteq> 0 \<Longrightarrow> (l / mx) / (r / mx) = l / r" using pos by simp
  have vl: "verify (l / mx) = l / mx"
  proof -
    from bl have "- 1 \<le> l / mx" "l / mx \<le> 1" by (simp_all only: abs_le_iff minus_le_iff)
    then show ?thesis by (rule verify_idem)
  qed
  have vr: "verify (r / mx) = r / mx"
  proof -
    from br have "- 1 \<le> r / mx" "r / mx \<le> 1" by (simp_all only: abs_le_iff minus_le_iff)
    then show ?thesis by (rule verify_idem)
  qed
  show ?thesis
    unfolding eq fst_conv snd_conv mx_def [symmetric]
    using one cross ratio vl vr by simp
qed

text \<open>
  The sums 1.4 and 0.2 of the specification's example become 1 and 1/7, whose ratio is
  still 7. (No stick position yields these sums: the speed component is at most 100/128.)
\<close>

lemma move_rescale_example:
  "max \<bar>14 / 10 :: real\<bar> \<bar>2 / 10\<bar> > 1
   \<and> move_rescale (14 / 10, 2 / 10) = (1, 1 / 7)
   \<and> max \<bar>fst (move_rescale (14 / 10, 2 / 10))\<bar> \<bar>snd (move_rescale (14 / 10, 2 / 10))\<bar> \<le> 1
   \<and> fst (move_rescale (14 / 10, 2 / 10)) / snd (move_rescale (14 / 10, 2 / 10))
       = (14 / 10) / (2 / 10)"
proof -
  have h: "max \<bar>14 / 10 :: real\<bar> \<bar>2 / 10\<bar> > 1" by simp
  show ?thesis using h move_rescale_joint_clamp [OF h] by simp
qed

text \<open>The sums that \<open>move\<close> forms when both sticks are at 127.\<close>

lemma move_sums_127: "move_sums 127 127 = (2495 / 1792, 275 / 1792)"
  by (simp add: move_sums_def move_split_def mapSpeedStick_def mapRotStick_def fmap_def
      Let_def stick_defs)

text \<open>
  C7. Let \<open>l = speed + rotL\<close> and \<open>r = speed + rotR\<close> be the sums that \<open>move\<close> forms from the
  two sticks. Whenever \<open>max |l| |r| > 1\<close>, what \<open>move\<close> writes is what \<open>setSpeed\<close> writes for
  \<open>l / max |l| |r|\<close> and \<open>r / max |l| |r|\<close>: both wheels are divided by the same factor. After
  the division the larger magnitude is at most 1, the ratio of the two wheels is the one
  of the sums, and the clamp of \<open>setSpeed\<close> changes nothing any more, so that the duty
  cycles written are those of the rescaled values.
\<close>

theorem move_joint_clamp:
  assumes "move_sums speedStick rotStick = (l, r)"
    and "max \<bar>l\<bar> \<bar>r\<bar> > 1"
  shows "trace (move s speedStick rotStick) =
           trace s @ setSpeed_writes (l / max \<bar>l\<bar> \<bar>r\<bar>) (r / max \<bar>l\<bar> \<bar>r\<bar>)
       \<and> max (abs (l / max \<bar>l\<bar> \<bar>r\<bar>)) (abs (r / max \<bar>l\<bar> \<bar>r\<bar>)) \<le> 1
       \<and> l / max \<bar>l\<bar> \<bar>r\<bar> * r = r / max \<bar>l\<bar> \<bar>r\<bar> * l
       \<and> (if r = 0 then r / max \<bar>l\<bar> \<bar>r\<bar> = 0
           else (l / max \<bar>l\<bar> \<bar>r\<bar>) / (r / max \<bar>l\<bar> \<bar>r\<bar>) = l / r)
       \<and> analog_writes (setSpeed_writes (l / max \<bar>l\<bar> \<bar>r\<bar>) (r / max \<bar>l\<bar> \<bar>r\<bar>)) =
           [(PIN_R_SPD, duty (r / max \<bar>l\<bar> \<bar>r\<bar>)), (PIN_L_SPD, duty (l / max \<bar>l\<bar> \<bar>r\<bar>))]"
proof -
  define mx where "mx = max \<bar>l\<bar> \<bar>r\<bar>"
  note c = move_rescale_joint_clamp [OF assms(2), folded mx_def]
  have eq: "move_rescale (move_sums speedStick rotStick) = (l / mx, r / mx)"
    unfolding assms(1) using c by (rule conjunct1)
  have tr: "trace (move s speedStick rotStick) = trace s @ setSpeed_writes (l / mx) (r / mx)"
    by (simp only: move_trace eq fst_conv snd_conv)
  have rs: "move_rescale (l, r) = (l / mx, r / mx)"
    using c by (rule conjunct1)
  have bd: "max \<bar>l / mx\<bar> \<bar>r / mx\<bar> \<le> 1"
    using c [THEN conjunct2, THEN conjunct1] unfolding rs fst_conv snd_conv .
  have cross: "l / mx * r = r / mx * l"
    using c [THEN conjunct2, THEN conjunct2, THEN conjunct1] unfolding rs fst_conv snd_conv .
  have ratio: "if r = 0 then r / mx = 0 else (l / mx) / (r / mx) = l / r"
    using c [THEN conjunct2, THEN conjunct2, THEN conjunct2, THEN conjunct1]
    unfolding rs fst_conv snd_conv .
  have vl: "verify (l / mx) = l / mx"
    using c [THEN conjunct2, THEN conjunct2, THEN conjunct2, THEN conjunct2, THEN conjunct1]
    unfolding rs fst_conv snd_conv .
  have vr: "verify (r / mx) = r / mx"
    using c [THEN conjunct2, THEN conjunct2, THEN conjunct2, THEN conjunct2, THEN conjunct2]
    unfolding rs fst_conv snd_conv .
  have aw: "analog_writes (setSpeed_writes (l / mx) (r / mx)) =
      [(PIN_R_SPD, duty (r / mx)), (PIN_L_SPD, duty (l / mx))]"
    by (simp add: setSpeed_writes_eq vl vr)
  from tr bd cross ratio aw show ?thesis
    unfolding mx_def by - (intro conjI; assumption)
qed

text \<open>
  Both sticks at 127: the sums are 2495/1792 and 275/1792, the larger one above 1. The
  left wheel is written at duty cycle 255 and the right wheel at 28, the duty cycle of
  55/499; without the division the right wheel would get 39.
\<close>

theorem move_joint_clamp_witness:
  "move_sums 127 127 = (2495 / 1792, 275 / 1792)
   \<and> max \<bar>2495 / 1792 :: real\<bar> \<bar>275 / 1792\<bar> > 1
   \<and> trace (move (state_of Neutral Neutral 0) 127 127) = setSpeed_writes 1 (55 / 499)
   \<and> analog_writes (trace (move (state_of Neutral Neutral 0) 127 127)) =
       [(PIN_R_SPD, 28), (PIN_L_SPD, 255)]
   \<and> duty (275 / 1792) = 39"
proof -
  have h: "max \<bar>2495 / 1792 :: real\<bar> \<bar>275 / 1792\<bar> > 1" by simp
  have m: "max \<bar>2495 / 1792 :: real\<bar> \<bar>275 / 1792\<bar> = 2495 / 1792" by simp
  note t = move_joint_clamp [OF move_sums_127 h, of "state_of Neutral Neutral 0"]
  have q: "(2495 / 1792 :: real) / (2495 / 1792) = 1" "(275 / 1792 :: real) / (2495 / 1792) = 55 / 499"
    by simp_all
  have c3: "trace (move (state_of Neutral Neutral 0) 127 127) = setSpeed_writes 1 (55 / 499)"
    using t [THEN conjunct1] unfolding m q by (simp add: state_of_def)
  have aw: "analog_writes (setSpeed_writes 1 (55 / 499)) =
      [(PIN_R_SPD, duty (55 / 499)), (PIN_L_SPD, duty 1)]"
    using t [THEN conjunct2, THEN conjunct2, THEN conjunct2, THEN conjunct2] unfolding m q .
  have d: "duty 1 = 255" "duty (55 / 499) = 28" "duty (275 / 1792) = 39"
    by (simp_all add: duty_def)
  have c4: "analog_writes (trace (move (state_of Neutral Neutral 0) 127 127)) =
       [(PIN_R_SPD, 28), (PIN_L_SPD, 255)]"
    unfolding c3 aw d by (rule refl)
  from move_sums_127 h c3 c4 d(3) show ?thesis by - (intro conjI; assumption)
qed

section \<open>The status and the full queue\<close>

text \<open>
  C8. The status that \<open>processActionQueue\<close> returns describes the state it leaves behind:
  it is 0 exactly when the current action is \<open>Neutral\<close>, 1 exactly when an action runs
  and none is queued, and 2 exactly when an action runs and another one is queued. In
  the last case the rest of the iteration, whatever buttons are held, leaves the current
  action, the queued action and the start time as \<open>processActionQueue\<close> left them.
\<close>

theorem status_and_queue_full:
  "(fst (processActionQueue s t_chk t_set) = 0
      \<longleftrightarrow> currentAction (snd (processActionQueue s t_chk t_set)) = Neutral)
   \<and> (fst (processActionQueue s t_chk t_set) = 1
      \<longleftrightarrow> currentAction (snd (processActionQueue s t_chk t_set)) \<noteq> Neutral
          \<and> nextAction (snd (processActionQueue s t_chk t_set)) = Neutral)
   \<and> (fst (processActionQueue s t_chk t_set) = 2
      \<longleftrightarrow> currentAction (snd (processActionQueue s t_chk t_set)) \<noteq> Neutral
          \<and> nextAction (snd (processActionQueue s t_chk t_set)) \<noteq> Neutral)
   \<and> (currentAction (snd (processActionQueue s t_chk t_set)) \<noteq> Neutral
        \<and> nextAction (snd (processActionQueue s t_chk t_set)) \<noteq> Neutral
      \<longrightarrow> currentAction (loop s (Connected t_chk t_set t_exec t_deb inp))
            = currentAction (snd (processActionQueue s t_chk t_set))
        \<and> nextAction (loop s (Connected t_chk t_set t_exec t_deb inp))
            = nextAction (snd (processActionQueue s t_chk t_set))
        \<and> lastActionStart (loop s (Connected t_chk t_set t_exec t_deb inp))
            = lastActionStart (snd (processActionQueue s t_chk t_set)))"
proof -
  define q where "q = processActionQueue s t_chk t_set"
  have st: "fst q = notnot (currentAction (snd q)) + notnot (nextAction (snd q))"
    unfolding q_def by (rule processActionQueue_status)
  have idle: "currentAction (snd q) = Neutral \<Longrightarrow> nextAction (snd q) = Neutral"
    unfolding q_def by (rule processActionQueue_idle)
  have l: "loop s (Connected t_chk t_set t_exec t_deb inp) =
      processController (executeAction (snd q) t_exec) (fst q) inp t_deb"
    unfolding q_def by (rule loop_connected)
  have e0: "fst q = 0 \<longleftrightarrow> currentAction (snd q) = Neutral"
    using st idle by (auto simp add: notnot_def split: if_splits)
  have e1: "fst q = 1 \<longleftrightarrow> currentAction (snd q) \<noteq> Neutral \<and> nextAction (snd q) = Neutral"
    using st idle by (auto simp add: notnot_def split: if_splits)
  have e2: "fst q = 2 \<longleftrightarrow> currentAction (snd q) \<noteq> Neutral \<and> nextAction (snd q) \<noteq> Neutral"
    using st by (auto simp add: notnot_def split: if_splits)
  have full: "currentAction (loop s (Connected t_chk t_set t_exec t_deb inp)) = currentAction (snd q)
      \<and> nextAction (loop s (Connected t_chk t_set t_exec t_deb inp)) = nextAction (snd q)
      \<and> lastActionStart (loop s (Connected t_chk t_set t_exec t_deb inp)) = lastActionStart (snd q)"
    if "currentAction (snd q) \<noteq> Neutral \<and> nextAction (snd q) \<noteq> Neutral"
  proof -
    from that e2 have "fst q = 2" by simp
    then show ?thesis unfolding l by (simp add: processController_full)
  qed
  show ?thesis
    unfolding q_def [symmetric] using e0 e1 e2 full by blast
qed

text \<open>
  A dash that started 100 ms ago with a spin queued: the status is 2, and although all
  four buttons are held the spin stays queued.
\<close>

theorem status_and_queue_full_witness:
  "currentAction (snd (processActionQueue (state_of DashF SpinR 0) 100 100)) \<noteq> Neutral
   \<and> nextAction (snd (processActionQueue (state_of DashF SpinR 0) 100 100)) \<noteq> Neutral
   \<and> fst (processActionQueue (state_of DashF SpinR 0) 100 100) = 2
   \<and> currentAction (loop (state_of DashF SpinR 0)
        (Connected 100 100 100 100 (pressed True True True True))) = DashF
   \<and> nextAction (loop (state_of DashF SpinR 0)
        (Connected 100 100 100 100 (pressed True True True True))) = SpinR
   \<and> lastActionStart (loop (state_of DashF SpinR 0)
        (Connected 100 100 100 100 (pressed True True True True))) = 0"
proof -
  have q: "snd (processActionQueue (state_of DashF SpinR 0) 100 100) = state_of DashF SpinR 0"
    by (simp add: processActionQueue_def checkCooldown_def checkDebounce_def getCooldown_def
        DASH_DURATION_def Let_def state_of_def)
  show ?thesis
    using status_and_queue_full [of "state_of DashF SpinR 0" 100 100 100 100
        "pressed True True True True"]
    by (simp add: q) (simp add: state_of_def)
qed

section \<open>Loss of the gamepad link\<close>

lemma attempts_Nil [simp]: "attempts [] = 0"
  by (simp add: attempts_def)

lemma attempts_append [simp]: "attempts (xs @ ys) = attempts xs + attempts ys"
  by (simp add: attempts_def)

lemma attempts_setSpeed_writes [simp]: "attempts (setSpeed_writes l r) = 0"
  by (simp add: attempts_def setSpeed_writes_def Let_def)

lemma attempts_stop_writes [simp]: "attempts stop_writes = 0"
  by (simp add: attempts_def stop_writes_def)

lemma attempts_reconnect [simp]: "attempts reconnect = 1"
  by (simp add: attempts_def reconnect_def)

lemma attempts_setSpeed [simp]: "attempts (trace (setSpeed s l r)) = attempts (trace s)"
  by (simp add: setSpeed_trace)

lemma attempts_move [simp]: "attempts (trace (move s a b)) = attempts (trace s)"
  by (simp add: move_def Let_def)

lemma attempts_executeAction [simp]:
  "attempts (trace (executeAction s now)) = attempts (trace s)"
  by (simp add: executeAction_def dashF_def dashB_def spinR_def spinL_def)

lemma processActionQueue_link [simp]:
  "attempts (trace (snd (processActionQueue s t_chk t_set))) = attempts (trace s)"
  "stickReconnectTimer (snd (processActionQueue s t_chk t_set)) = stickReconnectTimer s"
  by (simp_all add: processActionQueue_def Let_def reset_def)

lemma processController_link [simp]:
  "attempts (trace (processController s st inp now)) = attempts (trace s)"
  "stickReconnectTimer (processController s st inp now) = stickReconnectTimer s"
  by (simp_all add: processController_def Let_def)

text \<open>A connected iteration neither attempts to reconnect nor touches the reconnect timer.\<close>

lemma loop_connected_link:
  "attempts (trace (loop s (Connected t_chk t_set t_exec t_deb inp))) = attempts (trace s)"
  "stickReconnectTimer (loop s (Connected t_chk t_set t_exec t_deb inp)) = stickReconnectTimer s"
  by (simp_all only: loop_connected processController_link executeAction_frame
      attempts_executeAction processActionQueue_link)

lemma loop_in_window:
  assumes "in_window (stickReconnectTimer s) t"
  shows "attempts (trace (loop s t)) = attempts (trace s)
       \<and> stickReconnectTimer (loop s t) = stickReconnectTimer s"
proof (cases t)
  case (Connected t_chk t_set t_exec t_deb inp)
  then show ?thesis by (simp only: loop_connected_link)
next
  case (Disconnected t_chk t_set)
  with assms have "\<not> t_chk - stickReconnectTimer s > STICK_RECONNECT_DELAY"
    by (simp add: not_less)
  with Disconnected show ?thesis
    by (simp add: loop_disconnected)
qed

text \<open>
  As long as every iteration lies in the window that opened at the value of the
  reconnect timer, no reconnect is attempted and the timer keeps its value: induction
  on the iterations, for all states.
\<close>

lemma run_in_window:
  "\<forall>t \<in> set ticks. in_window (stickReconnectTimer s) t
   \<Longrightarrow> attempts (trace (run s ticks)) = attempts (trace s)
       \<and> stickReconnectTimer (run s ticks) = stickReconnectTimer s"
proof (induction ticks arbitrary: s)
  case Nil
  then show ?case by simp
next
  case (Cons t ticks)
  from Cons.prems have "in_window (stickReconnectTimer s) t" by simp
  then have step: "attempts (trace (loop s t)) = attempts (trace s)"
    "stickReconnectTimer (loop s t) = stickReconnectTimer s"
    using loop_in_window by simp_all
  from Cons.prems step have "\<forall>u \<in> set ticks. in_window (stickReconnectTimer (loop s t)) u"
    by simp
  from Cons.IH [OF this] step show ?case by simp
qed

text \<open>
  C9. An iteration that finds the gamepad disconnected first writes the stop command.
  It attempts to reconnect only if the clock is more than \<open>STICK_RECONNECT_DELAY\<close>
  (3000 ms) past \<open>stickReconnectTimer\<close>, and then sets the timer to the clock value read
  for it. While the following iterations lie in the window of 3000 ms that opens at the
  timer's value, no further attempt is made: over the whole run there is one attempt if
  the first iteration made one, and none otherwise. The timer is separate from the
  action queue: the disconnected iteration leaves the current action, the queued action
  and \<open>lastActionStart\<close> alone and does not read them, and a connected iteration leaves
  the timer alone.
\<close>

theorem disconnected_stop_and_rate_limit:
  assumes "\<forall>t \<in> set ticks. in_window (stickReconnectTimer (loop s (Disconnected t_chk t_set))) t"
  shows "trace (loop s (Disconnected t_chk t_set)) =
           trace s @ stop_writes @
             (if t_chk - stickReconnectTimer s > STICK_RECONNECT_DELAY then reconnect else [])
       \<and> stickReconnectTimer (loop s (Disconnected t_chk t_set)) =
           (if t_chk - stickReconnectTimer s > STICK_RECONNECT_DELAY then t_set
            else stickReconnectTimer s)
       \<and> attempts (trace (run s (Disconnected t_chk t_set # ticks))) =
           attempts (trace s)
             + (if t_chk - stickReconnectTimer s > STICK_RECONNECT_DELAY then 1 else 0)
       \<and> currentAction (loop s (Disconnected t_chk t_set)) = currentAction s
       \<and> nextAction (loop s (Disconnected t_chk t_set)) = nextAction s
       \<and> lastActionStart (loop s (Disconnected t_chk t_set)) = lastActionStart s
       \<and> stickReconnectTimer (loop s (Connected c_chk c_set c_exec c_deb inp)) =
           stickReconnectTimer s"
proof -
  have tr: "trace (loop s (Disconnected t_chk t_set)) =
           trace s @ stop_writes @
             (if t_chk - stickReconnectTimer s > STICK_RECONNECT_DELAY then reconnect else [])"
    by (simp add: loop_disconnected)
  have tm: "stickReconnectTimer (loop s (Disconnected t_chk t_set)) =
           (if t_chk - stickReconnectTimer s > STICK_RECONNECT_DELAY then t_set
            else stickReconnectTimer s)"
    by (simp add: loop_disconnected)
  have first: "attempts (trace (loop s (Disconnected t_chk t_set))) =
      attempts (trace s) + (if t_chk - stickReconnectTimer s > STICK_RECONNECT_DELAY then 1 else 0)"
    by (simp add: tr)
  have "attempts (trace (run (loop s (Disconnected t_chk t_set)) ticks)) =
      attempts (trace (loop s (Disconnected t_chk t_set)))"
    using run_in_window [OF assms] by simp
  with first have cnt: "attempts (trace (run s (Disconnected t_chk t_set # ticks))) =
      attempts (trace s) + (if t_chk - stickReconnectTimer s > STICK_RECONNECT_DELAY then 1 else 0)"
    by simp
  have fr: "currentAction (loop s (Disconnected t_chk t_set)) = currentAction s"
    "nextAction (loop s (Disconnected t_chk t_set)) = nextAction s"
    "lastActionStart (loop s (Disconnected t_chk t_set)) = lastActionStart s"
    by (simp_all add: loop_disconnected)
  have co: "stickReconnectTimer (loop s (Connected c_chk c_set c_exec c_deb inp)) =
           stickReconnectTimer s"
    by (rule loop_connected_link)
  from tr tm cnt fr co show ?thesis by - (intro conjI; assumption)
qed

text \<open>
  Disconnected at time 3001 with the timer at 0: the stop command, then one attempt,
  and the timer becomes 3002. Two more disconnected iterations up to 3000 ms later, and
  a connected one in between, add no attempt.
\<close>

theorem disconnected_stop_and_rate_limit_witness:
  "list_all (in_window (stickReconnectTimer
       (loop (state_of Neutral Neutral 0) (Disconnected 3001 3002)))) example_ticks
   \<and> trace (loop (state_of Neutral Neutral 0) (Disconnected 3001 3002)) = stop_writes @ reconnect
   \<and> stickReconnectTimer (loop (state_of Neutral Neutral 0) (Disconnected 3001 3002)) = 3002
   \<and> attempts (trace (run (state_of Neutral Neutral 0) (Disconnected 3001 3002 # example_ticks)))
       = 1"
proof -
  have tm: "stickReconnectTimer (loop (state_of Neutral Neutral 0) (Disconnected 3001 3002)) = 3002"
    by (simp add: loop_disconnected state_of_def STICK_RECONNECT_DELAY_def)
  have h: "\<forall>t \<in> set example_ticks.
      in_window (stickReconnectTimer (loop (state_of Neutral Neutral 0) (Disconnected 3001 3002))) t"
    unfolding tm by (simp add: example_ticks_def STICK_RECONNECT_DELAY_def)
  then have h': "list_all (in_window (stickReconnectTimer
       (loop (state_of Neutral Neutral 0) (Disconnected 3001 3002)))) example_ticks"
    by (simp only: list_all_iff)
  note t = disconnected_stop_and_rate_limit [OF h]
  have g: "(3001::millis) - stickReconnectTimer (state_of Neutral Neutral 0) > STICK_RECONNECT_DELAY"
    by (simp add: state_of_def STICK_RECONNECT_DELAY_def)
  from t [THEN conjunct1]
  have c2: "trace (loop (state_of Neutral Neutral 0) (Disconnected 3001 3002)) =
      stop_writes @ reconnect"
    using g by (simp add: state_of_def)
  from t [THEN conjunct2, THEN conjunct2, THEN conjunct1]
  have c4: "attempts (trace (run (state_of Neutral Neutral 0)
        (Disconnected 3001 3002 # example_ticks))) = 1"
    using g by (simp add: state_of_def attempts_def)
  from h' c2 tm c4 show ?thesis by - (intro conjI; assumption)
qed

text \<open>
  The second sketch of \<open>sumo.ino\<close> only calls \<open>removePairedDevices()\<close> in this branch and
  never assigns the timer.
\<close>

lemma loop_disconnected_old_timer:
  "stickReconnectTimer (loop_disconnected_old s t_chk) = stickReconnectTimer s
   \<and> trace (loop_disconnected_old s t_chk) =
       trace s @ reset_writes_old @
         (if t_chk - stickReconnectTimer s > STICK_RECONNECT_DELAY then [RemovePairedDevices]
          else [])"
  by (simp add: loop_disconnected_old_def emit_def Let_def)

section \<open>An idle scheduler has an empty queue\<close>

text \<open>
  C10. When \<open>processActionQueue\<close> returns, a current action \<open>Neutral\<close> implies a next action
  \<open>Neutral\<close>: a queued action never waits behind an idle scheduler. Hence the value
  \<open>!!currentAction + !!nextAction\<close> that it returns is the documented status of the state
  it leaves behind: 0 when idle, 1 when an action runs and none is queued, 2 when an
  action runs and another one is queued.
\<close>

theorem processActionQueue_idle_implies_empty:
  "(currentAction (snd (processActionQueue s t_chk t_set)) = Neutral
      \<longrightarrow> nextAction (snd (processActionQueue s t_chk t_set)) = Neutral)
   \<and> fst (processActionQueue s t_chk t_set) =
       documented_status (currentAction (snd (processActionQueue s t_chk t_set)))
                         (nextAction (snd (processActionQueue s t_chk t_set)))"
  using processActionQueue_idle [of s t_chk t_set] processActionQueue_status [of s t_chk t_set]
  by (simp add: documented_status_def notnot_def)

text \<open>
  A dash without successor ends in the idle state with status 0; a spin queued behind an
  idle scheduler is promoted in the same call, with status 1.
\<close>

theorem processActionQueue_idle_implies_empty_witness:
  "currentAction (snd (processActionQueue (state_of DashF Neutral 0) 301 301)) = Neutral
   \<and> nextAction (snd (processActionQueue (state_of DashF Neutral 0) 301 301)) = Neutral
   \<and> fst (processActionQueue (state_of DashF Neutral 0) 301 301) = 0
   \<and> currentAction (snd (processActionQueue (state_of Neutral SpinL 0) 7 8)) = SpinL
   \<and> fst (processActionQueue (state_of Neutral SpinL 0) 7 8) = 1"
proof -
  have c: "currentAction (snd (processActionQueue (state_of DashF Neutral 0) 301 301)) = Neutral"
    by (simp add: processActionQueue_def checkCooldown_def checkDebounce_def getCooldown_def
        DASH_DURATION_def Let_def state_of_def)
  have d: "snd (processActionQueue (state_of Neutral SpinL 0) 7 8) = state_of SpinL Neutral 8"
    by (simp add: processActionQueue_def Let_def state_of_def)
  show ?thesis
    using c d processActionQueue_idle_implies_empty [of "state_of DashF Neutral 0" 301 301]
      processActionQueue_idle_implies_empty [of "state_of Neutral SpinL 0" 7 8]
    by (simp add: documented_status_def state_of_def)
qed

end
